theory Spec2Isabelle
  imports Main
begin

section \<open>The signup demo form: schema validation and submission\<close>

text \<open>
  A shallow embedding of the script block of
  \<^verbatim>\<open>src/components/partials/documentation/DocumentationDemoFormValidation.vue\<close>:
  the zod schema \<^verbatim>\<open>validationSchema\<close> (lines 14-49), the form context created by
  \<^verbatim>\<open>useForm\<close> (lines 53-64), the \<^verbatim>\<open>loading\<close> flag (line 66) and the submission
  handler \<^verbatim>\<open>handleSignup\<close> (lines 69-85).

  The schema is written with the combinators of zod 3 (the options \<^verbatim>\<open>required_error\<close>
  and \<^verbatim>\<open>invalid_type_error\<close> are zod 3 API) and handed to vee-validate. Both libraries
  are outside the repository. Each combinator the schema uses is modelled below with
  the parse status (valid, dirty, aborted) and the issue list that zod 3 computes for it;
  two things the file does not fix are parameters of the model (record \<open>env\<close>).
\<close>

subsection \<open>JavaScript values\<close>

text \<open>
  The values a form field can hold. A string is the list of its code units (\<open>length\<close>
  is JavaScript's \<^verbatim>\<open>.length\<close>; the code units are HOL characters, so the strings
  covered are those of 8-bit code units); a \<^verbatim>\<open>Date\<close> is its time value in
  milliseconds, \<open>None\<close> for an invalid date (\<^verbatim>\<open>getTime()\<close> is NaN); an object is the
  association list of its own properties, a missing property reading as \<^verbatim>\<open>undefined\<close>.
  Numbers stand for every other kind of value (bigints, symbols, functions, maps, sets,
  promises): no parser of this schema accepts them, and they differ only in the type
  name a default message prints.
\<close>

datatype jsval =
    JUndefined
  | JNull
  | JBool bool
  | JNum int
  | JStr string
  | JDate "int option"
  | JArr "jsval list"
  | JObj "(string \<times> jsval) list"

definition js_get :: "(string \<times> jsval) list \<Rightarrow> string \<Rightarrow> jsval" where
  "js_get kvs k = (case map_of kvs k of Some v \<Rightarrow> v | None \<Rightarrow> JUndefined)"

text \<open>zod's \<^verbatim>\<open>getParsedType\<close>, by the name it prints in a message.\<close>

fun getParsedType :: "jsval \<Rightarrow> string" where
  "getParsedType JUndefined = ''undefined''"
| "getParsedType JNull = ''null''"
| "getParsedType (JBool b) = ''boolean''"
| "getParsedType (JNum n) = ''number''"
| "getParsedType (JStr s) = ''string''"
| "getParsedType (JDate t) = ''date''"
| "getParsedType (JArr xs) = ''array''"
| "getParsedType (JObj kvs) = ''object''"

subsection \<open>Issues and parse results\<close>

datatype seg = Key string | Idx nat

type_synonym path = "seg list"

datatype issue_code =
  invalid_type | invalid_string | too_small | too_big | invalid_date | custom

datatype issue = Issue (code: issue_code) (path: path) (message: string)

text \<open>
  The return value of a zod \<^verbatim>\<open>_parse\<close>: \<^verbatim>\<open>INVALID\<close> (status aborted, no value),
  \<^verbatim>\<open>DIRTY(value)\<close> (issues were added, parsing went on) or \<^verbatim>\<open>OK(value)\<close>.

  The issues a parser adds to the shared context are returned beside it, in two lists.
  The typed schema parses with \<^verbatim>\<open>safeParseAsync\<close>. There every parser of the schema still
  runs at once, in order, and adds its issues as it runs (the first list); only the
  check of a \<^verbatim>\<open>refine\<close> is put off to a later turn of the event loop, so the issue of
  a refinement is added after the issues of all parsers that run at once (the second
  list). The context's issue list is the first list followed by the second.
\<close>

datatype parse_return = INVALID | DIRTY jsval | OK jsval

type_synonym parse_result = "parse_return \<times> issue list \<times> issue list"

type_synonym schema = "path \<Rightarrow> jsval \<Rightarrow> parse_result"

definition sync_issues :: "parse_result \<Rightarrow> issue list" where
  "sync_issues r = fst (snd r)"

definition late_issues :: "parse_result \<Rightarrow> issue list" where
  "late_issues r = snd (snd r)"

definition added :: "parse_result \<Rightarrow> issue list" where
  "added r = sync_issues r @ late_issues r"

text \<open>
  What the source leaves open: the regular expression behind \<^verbatim>\<open>.email()\<close> (it changed
  between zod 3 releases, and the file pins none), and the instant \<^verbatim>\<open>new Date()\<close>
  returns when the schema is built (line 33).
\<close>

record env =
  emailRegex_test :: "string \<Rightarrow> bool"
  setup_time :: int

text \<open>
  The message of an \<^verbatim>\<open>invalid_type\<close> issue: \<^verbatim>\<open>required_error\<close> when the data is
  \<^verbatim>\<open>undefined\<close>, \<^verbatim>\<open>invalid_type_error\<close> otherwise, and zod's default message where the
  schema gives none.
\<close>

definition invalid_type_issue ::
  "string option \<Rightarrow> string option \<Rightarrow> string \<Rightarrow> path \<Rightarrow> jsval \<Rightarrow> issue" where
  "invalid_type_issue required_error invalid_type_error expected p v =
     Issue invalid_type p
       (if v = JUndefined
        then (case required_error of Some m \<Rightarrow> m | None \<Rightarrow> ''Required'')
        else (case invalid_type_error of
                Some m \<Rightarrow> m
              | None \<Rightarrow> ''Expected '' @ expected @ '', received '' @ getParsedType v))"

subsection \<open>The zod combinators the schema uses\<close>

datatype string_check = Email string | Min nat string

fun string_check_issues :: "env \<Rightarrow> path \<Rightarrow> string \<Rightarrow> string_check \<Rightarrow> issue list" where
  "string_check_issues e p s (Email m) =
     (if emailRegex_test e s then [] else [Issue invalid_string p m])"
| "string_check_issues e p s (Min n m) =
     (if length s < n then [Issue too_small p m] else [])"

text \<open>
  \<^verbatim>\<open>zod.string(params)\<close> with its checks: a value that is not a string aborts with one
  \<^verbatim>\<open>invalid_type\<close> issue; on a string every check runs, a failed check adds its issue
  and makes the result dirty.
\<close>

definition z_string :: "env \<Rightarrow> string option \<Rightarrow> string_check list \<Rightarrow> schema" where
  "z_string e required_error checks p v =
     (case v of
        JStr s \<Rightarrow>
          (let iss = concat (map (string_check_issues e p s) checks)
           in (if iss = [] then OK v else DIRTY v, iss, []))
      | _ \<Rightarrow> (INVALID, [invalid_type_issue required_error None ''string'' p v], []))"

text \<open>
  \<^verbatim>\<open>zod.date(params).max(t, m)\<close>: not a \<^verbatim>\<open>Date\<close> aborts with \<^verbatim>\<open>invalid_type\<close>, an invalid
  \<^verbatim>\<open>Date\<close> aborts with \<^verbatim>\<open>invalid_date\<close> (default message), a time value greater than
  \<open>t\<close> adds \<^verbatim>\<open>too_big\<close>.
\<close>

definition z_date_max :: "string option \<Rightarrow> string option \<Rightarrow> int \<Rightarrow> string \<Rightarrow> schema" where
  "z_date_max required_error invalid_type_error t m p v =
     (case v of
        JDate None \<Rightarrow> (INVALID, [Issue invalid_date p ''Invalid date''], [])
      | JDate (Some ms) \<Rightarrow>
          (if ms > t then (DIRTY v, [Issue too_big p m], []) else (OK v, [], []))
      | _ \<Rightarrow>
          (INVALID, [invalid_type_issue required_error invalid_type_error ''date'' p v], []))"

definition z_nullable :: "schema \<Rightarrow> schema" where
  "z_nullable s p v = (if v = JNull then (OK JNull, [], []) else s p v)"

definition z_boolean :: schema where
  "z_boolean p v =
     (case v of
        JBool b \<Rightarrow> (OK v, [], [])
      | _ \<Rightarrow> (INVALID, [invalid_type_issue None None ''boolean'' p v], []))"

text \<open>
  \<^verbatim>\<open>schema.refine(check, {message, path})\<close>: the inner schema is parsed first; when it
  aborts the refinement is not executed; otherwise \<open>check\<close> runs on the inner value and
  a false result adds a \<^verbatim>\<open>custom\<close> issue at the context path extended by \<open>rpath\<close>.
  The check runs once the inner result is there, in a later turn: its issue goes to
  the second list, behind what the inner schema put there.
\<close>

definition z_refine :: "(jsval \<Rightarrow> bool) \<Rightarrow> string \<Rightarrow> path \<Rightarrow> schema \<Rightarrow> schema" where
  "z_refine check m rpath s p v =
     (case s p v of
        (INVALID, now, later) \<Rightarrow> (INVALID, now, later)
      | (DIRTY x, now, later) \<Rightarrow>
          (DIRTY x, now, if check x then later else later @ [Issue custom (p @ rpath) m])
      | (OK x, now, later) \<Rightarrow>
          (if check x then (OK x, now, later)
           else (DIRTY x, now, later @ [Issue custom (p @ rpath) m])))"

text \<open>\<^verbatim>\<open>ParseStatus.mergeArray\<close>: aborted if an element is, dirty if one is or \<open>d\<close> holds.\<close>

fun mergeArray :: "bool \<Rightarrow> jsval list \<Rightarrow> parse_return list \<Rightarrow> parse_return" where
  "mergeArray d acc [] = (if d then DIRTY (JArr acc) else OK (JArr acc))"
| "mergeArray d acc (INVALID # rs) = INVALID"
| "mergeArray d acc (DIRTY x # rs) = mergeArray True (acc @ [x]) rs"
| "mergeArray d acc (OK x # rs) = mergeArray d (acc @ [x]) rs"

text \<open>
  \<^verbatim>\<open>element.array().min(lo, m_lo).max(hi, m_hi)\<close>: the length checks run before the
  elements are parsed, each at its index.
\<close>

definition z_array_min_max :: "schema \<Rightarrow> nat \<Rightarrow> string \<Rightarrow> nat \<Rightarrow> string \<Rightarrow> schema" where
  "z_array_min_max elem lo m_lo hi m_hi p v =
     (case v of
        JArr xs \<Rightarrow>
          (let small = (if length xs < lo then [Issue too_small p m_lo] else []);
               big = (if length xs > hi then [Issue too_big p m_hi] else []);
               rs = map (\<lambda>(i, x). elem (p @ [Idx i]) x) (enumerate 0 xs)
           in (mergeArray (small @ big \<noteq> []) [] (map fst rs),
               small @ big @ concat (map sync_issues rs),
               concat (map late_issues rs)))
      | _ \<Rightarrow> (INVALID, [invalid_type_issue None None ''array'' p v], []))"

text \<open>
  \<^verbatim>\<open>ParseStatus.mergeObjectSync\<close>: aborted if a field is, dirty if one is. A key is set
  in the output when its value is defined or the key is in the data (\<open>alwaysSet\<close>).
\<close>

fun mergeObject ::
  "bool \<Rightarrow> (string \<times> jsval) list \<Rightarrow> (string \<times> bool \<times> parse_return) list \<Rightarrow> parse_return" where
  "mergeObject d acc [] = (if d then DIRTY (JObj acc) else OK (JObj acc))"
| "mergeObject d acc ((k, alwaysSet, INVALID) # rs) = INVALID"
| "mergeObject d acc ((k, alwaysSet, DIRTY x) # rs) =
     mergeObject True (if x \<noteq> JUndefined \<or> alwaysSet then acc @ [(k, x)] else acc) rs"
| "mergeObject d acc ((k, alwaysSet, OK x) # rs) =
     mergeObject d (if x \<noteq> JUndefined \<or> alwaysSet then acc @ [(k, x)] else acc) rs"

text \<open>
  \<^verbatim>\<open>zod.object(shape)\<close>: a value that is not a plain object aborts; otherwise every key
  of the shape is parsed, in the shape's order, keys outside the shape are stripped.
\<close>

definition z_object :: "(string \<times> schema) list \<Rightarrow> schema" where
  "z_object shape p v =
     (case v of
        JObj kvs \<Rightarrow>
          (let rs = map (\<lambda>(k, s). (k, s (p @ [Key k]) (js_get kvs k))) shape
           in (mergeObject False []
                 (map (\<lambda>(k, r). (k, k \<in> fst ` set kvs, fst r)) rs),
               concat (map (\<lambda>(k, r). sync_issues r) rs),
               concat (map (\<lambda>(k, r). late_issues r) rs)))
      | _ \<Rightarrow> (INVALID, [invalid_type_issue None None ''object'' p v], []))"

subsection \<open>The schema of the form (lines 14-49)\<close>

definition email_schema :: "env \<Rightarrow> schema" where
  "email_schema e =
     z_string e (Some ''Enter your email first'')
       [Email ''A valid email address should be provided'']"

definition password_schema :: "env \<Rightarrow> schema" where
  "password_schema e =
     z_string e (Some ''Enter your password to sign in'')
       [Min 8 ''Your password should contains at least 8 characters'']"

definition passwordCheck_schema :: "env \<Rightarrow> schema" where
  "passwordCheck_schema e = z_string e None []"

definition birthdate_schema :: "env \<Rightarrow> schema" where
  "birthdate_schema e =
     z_nullable
       (z_date_max (Some ''Please enter a date'') (Some ''Please enter a valid date'')
          (setup_time e) ''You cannot be born in the future'')"

definition agreeTerms_schema :: schema where
  "agreeTerms_schema =
     z_refine (\<lambda>v. v = JBool True) ''You must agree our terms of service'' [] z_boolean"

definition interests_schema :: "env \<Rightarrow> schema" where
  "interests_schema e =
     z_array_min_max (z_string e None [])
       2 ''You must select at least 2 terms of service''
       3 ''You can select up to 3 terms of service''"

definition emailOptin_schema :: schema where
  "emailOptin_schema = z_boolean"

definition form_shape :: "env \<Rightarrow> (string \<times> schema) list" where
  "form_shape e =
     [(''email'', email_schema e),
      (''password'', password_schema e),
      (''passwordCheck'', passwordCheck_schema e),
      (''birthdate'', birthdate_schema e),
      (''agreeTerms'', agreeTerms_schema),
      (''interests'', interests_schema e),
      (''emailOptin'', emailOptin_schema)]"

text \<open>
  The check of line 45, \<^verbatim>\<open>data.password === data.passwordCheck\<close>, on the parsed object.
  Strict equality of two strings compares their contents, \<^verbatim>\<open>undefined\<close> and \<^verbatim>\<open>null\<close>
  equal themselves, booleans and numbers compare by value; objects, arrays and dates
  compare by identity, which the parsed copy does not keep apart, so they are taken as
  different.
\<close>

fun strict_eq :: "jsval \<Rightarrow> jsval \<Rightarrow> bool" where
  "strict_eq JUndefined JUndefined = True"
| "strict_eq JNull JNull = True"
| "strict_eq (JBool a) (JBool b) = (a = b)"
| "strict_eq (JNum a) (JNum b) = (a = b)"
| "strict_eq (JStr a) (JStr b) = (a = b)"
| "strict_eq a b = False"

fun field :: "jsval \<Rightarrow> string \<Rightarrow> jsval" where
  "field (JObj kvs) k = js_get kvs k"
| "field v k = JUndefined"

definition passwords_match :: "jsval \<Rightarrow> bool" where
  "passwords_match data = strict_eq (field data ''password'') (field data ''passwordCheck'')"

definition validationSchema :: "env \<Rightarrow> schema" where
  "validationSchema e =
     z_refine passwords_match ''The confirmation does not match the password''
       [Key ''passwordCheck''] (z_object (form_shape e))"

subsection \<open>Validation as the form context sees it\<close>

text \<open>
  \<^verbatim>\<open>toTypedSchema\<close> wraps the schema's \<^verbatim>\<open>safeParseAsync\<close>: the parse succeeds exactly
  when the status is valid, and then carries the parsed value; otherwise it carries the
  issues of the context, in the order they were added.
\<close>

datatype validation = Passed jsval | Failed "issue list"

definition safeParseAsync :: "schema \<Rightarrow> jsval \<Rightarrow> validation" where
  "safeParseAsync s v =
     (case s [] v of
        (OK x, now, later) \<Rightarrow> Passed x
      | (r, now, later) \<Rightarrow> Failed (now @ later))"

definition validate :: "env \<Rightarrow> jsval \<Rightarrow> validation" where
  "validate e v = safeParseAsync (validationSchema e) v"

text \<open>
  The typed schema groups the issues' messages by path: the errors attached to a field
  are the messages of the issues at the field's path, in order.
\<close>

definition errors_at :: "issue list \<Rightarrow> path \<Rightarrow> string list" where
  "errors_at iss p = map message (filter (\<lambda>i. path i = p) iss)"

text \<open>The initial values of the form (lines 55-63).\<close>

definition initialValues :: jsval where
  "initialValues =
     JObj [(''email'', JStr []),
           (''password'', JStr []),
           (''passwordCheck'', JStr []),
           (''birthdate'', JNull),
           (''interests'', JArr []),
           (''agreeTerms'', JBool False),
           (''emailOptin'', JBool False)]"

subsection \<open>The submission handler (lines 66-85)\<close>

text \<open>
  The calls the callback makes to its collaborators, in the order it makes them:
  \<^verbatim>\<open>sleep(ms)\<close>, \<^verbatim>\<open>setFieldError(field, message)\<close>, \<^verbatim>\<open>scrollTo(target)\<close> and
  \<^verbatim>\<open>notyf.success(message)\<close>. The component's state is the \<^verbatim>\<open>loading\<close> ref and the log
  of these calls, oldest first. The collaborators are taken to return normally.
\<close>

datatype effect =
    Sleep nat
  | SetFieldError string string
  | ScrollTo string
  | NotyfSuccess string

record component =
  loading :: bool
  effects :: "effect list"

text \<open>
  The callback is asynchronous: it runs to \<^verbatim>\<open>await sleep(1600)\<close>, gives control back,
  and goes on when the timer fires. A call of it therefore either has returned, or is
  suspended on a sleep with the values it was called with.
\<close>

datatype task = Returned | Awaiting nat jsval

text \<open>Lines 70-74: the guard, raising the flag, and the call of \<^verbatim>\<open>sleep\<close>.\<close>

definition signup_enter :: "jsval \<Rightarrow> component \<Rightarrow> task \<times> component" where
  "signup_enter vals c =
     (if loading c then (Returned, c)
      else (Awaiting 1600 vals,
            c\<lparr>loading := True, effects := effects c @ [Sleep 1600]\<rparr>))"

text \<open>Lines 76-84: what the callback does once the sleep is over.\<close>

definition signup_resume :: "jsval \<Rightarrow> component \<Rightarrow> component" where
  "signup_resume vals c =
     (if \<not> strict_eq (field vals ''email'') (JStr ''awesome@cssninja.io'')
      then c\<lparr>effects := effects c @
                [SetFieldError ''email''
                   ''This email is already taken! Tip: use awesome@cssninja.io'',
                 ScrollTo ''#email''],
             loading := False\<rparr>
      else c\<lparr>effects := effects c @ [NotyfSuccess ''You have successfully signed up!''],
             loading := False\<rparr>)"

text \<open>
  vee-validate's \<^verbatim>\<open>handleSubmit(fn)\<close>: the handler it returns validates the form values
  and calls \<open>fn\<close> with the parsed values when they are valid; otherwise \<open>fn\<close> is not
  called and the validation errors go to the form context.
\<close>

datatype submission = Rejected "issue list" | Called task

definition handleSubmit ::
  "(jsval \<Rightarrow> validation) \<Rightarrow> (jsval \<Rightarrow> component \<Rightarrow> task \<times> component) \<Rightarrow>
   jsval \<Rightarrow> component \<Rightarrow> submission \<times> component" where
  "handleSubmit validator fn formValues c =
     (case validator formValues of
        Passed vals \<Rightarrow> (case fn vals c of (t, c') \<Rightarrow> (Called t, c'))
      | Failed iss \<Rightarrow> (Rejected iss, c))"

definition handleSignup :: "env \<Rightarrow> jsval \<Rightarrow> component \<Rightarrow> submission \<times> component" where
  "handleSignup e = handleSubmit (validate e) signup_enter"

subsection \<open>The component over time\<close>

text \<open>
  Between two events the page is at rest: the component's state, and the calls of the
  callback that wait for their timer, oldest first. An event is a submission of the form
  with some values, or the firing of the oldest timer (all sleeps are equally long, so
  timers fire in the order they were set).
\<close>

record page =
  comp :: component
  waiting :: "jsval list"

datatype event = Submit jsval | TimerFires

fun step :: "env \<Rightarrow> page \<Rightarrow> event \<Rightarrow> page" where
  "step e s (Submit v) =
     (case handleSignup e v (comp s) of
        (Called (Awaiting ms vals), c') \<Rightarrow> \<lparr>comp = c', waiting = waiting s @ [vals]\<rparr>
      | (r, c') \<Rightarrow> \<lparr>comp = c', waiting = waiting s\<rparr>)"
| "step e s TimerFires =
     (case waiting s of
        [] \<Rightarrow> s
      | vals # rest \<Rightarrow> \<lparr>comp = signup_resume vals (comp s), waiting = rest\<rparr>)"

definition initial_page :: page where
  "initial_page = \<lparr>comp = \<lparr>loading = False, effects = []\<rparr>, waiting = []\<rparr>"

definition run :: "env \<Rightarrow> event list \<Rightarrow> page" where
  "run e evs = foldl (step e) initial_page evs"

text \<open>
  A log in which every outcome comes right after its own delay: a sequence of rounds,
  each a sleep of 1600 ms followed by the success notification or by the field error
  and the scroll, and possibly a last sleep whose outcome is still to come.
\<close>

fun delay_first :: "effect list \<Rightarrow> bool" where
  "delay_first [] = True"
| "delay_first [Sleep n] = (n = 1600)"
| "delay_first (Sleep n # NotyfSuccess m # rest) = (n = 1600 \<and> delay_first rest)"
| "delay_first (Sleep n # SetFieldError f m # ScrollTo t # rest) =
     (n = 1600 \<and> delay_first rest)"
| "delay_first log = False"

subsection \<open>What the form context reports\<close>

text \<open>
  The values are valid when the parse succeeded. The errors the form context holds for
  a top-level field after a validation are the messages at the field's path; a
  successful validation leaves none. \<open>issues\<close> is the issue list the schema collects,
  whatever the status.
\<close>

definition valid :: "env \<Rightarrow> jsval \<Rightarrow> bool" where
  "valid e v = (case validate e v of Passed x \<Rightarrow> True | Failed iss \<Rightarrow> False)"

definition field_errors :: "env \<Rightarrow> jsval \<Rightarrow> string \<Rightarrow> string list" where
  "field_errors e v k =
     (case validate e v of Passed x \<Rightarrow> [] | Failed iss \<Rightarrow> errors_at iss [Key k])"

definition issues :: "env \<Rightarrow> jsval \<Rightarrow> issue list" where
  "issues e v = added (validationSchema e [] v)"

text \<open>
  The declared type of each field: what its schema accepts before any check runs. A
  field of another type makes its parser, and with it the object's, abort.
\<close>

fun is_string :: "jsval \<Rightarrow> bool" where
  "is_string (JStr s) = True"
| "is_string v = False"

fun is_boolean :: "jsval \<Rightarrow> bool" where
  "is_boolean (JBool b) = True"
| "is_boolean v = False"

fun is_date_or_null :: "jsval \<Rightarrow> bool" where
  "is_date_or_null JNull = True"
| "is_date_or_null (JDate (Some t)) = True"
| "is_date_or_null v = False"

fun is_string_array :: "jsval \<Rightarrow> bool" where
  "is_string_array (JArr xs) = list_all is_string xs"
| "is_string_array v = False"

definition fields_typed :: "(string \<times> jsval) list \<Rightarrow> bool" where
  "fields_typed kvs =
     (is_string (js_get kvs ''email'') \<and>
      is_string (js_get kvs ''password'') \<and>
      is_string (js_get kvs ''passwordCheck'') \<and>
      is_date_or_null (js_get kvs ''birthdate'') \<and>
      is_boolean (js_get kvs ''agreeTerms'') \<and>
      is_string_array (js_get kvs ''interests'') \<and>
      is_boolean (js_get kvs ''emailOptin''))"

text \<open>
  The object the schema returns for values of the declared types: the keys of the
  shape, in the shape's order, each with the value it had in the data.
\<close>

definition parsed :: "(string \<times> jsval) list \<Rightarrow> (string \<times> jsval) list" where
  "parsed kvs =
     map (\<lambda>k. (k, js_get kvs k))
       [''email'', ''password'', ''passwordCheck'', ''birthdate'', ''agreeTerms'',
        ''interests'', ''emailOptin'']"

text \<open>The issue the refinement of lines 45-48 adds.\<close>

definition mismatch :: issue where
  "mismatch = Issue custom [Key ''passwordCheck''] ''The confirmation does not match the password''"

subsection \<open>Notions used in the proofs\<close>

text \<open>
  Three properties of a parser that all combinators above have or preserve: a result
  \<^verbatim>\<open>OK\<close> comes with no issue (\<open>clean\<close>); a result that is not aborted carries the
  data unchanged, and the data is not \<^verbatim>\<open>undefined\<close> (\<open>keeps\<close>); every issue lies at or
  below the path the parser was called with (\<open>rooted\<close>).
\<close>

fun value_of :: "parse_return \<Rightarrow> jsval" where
  "value_of INVALID = JUndefined"
| "value_of (DIRTY x) = x"
| "value_of (OK x) = x"

definition clean :: "schema \<Rightarrow> bool" where
  "clean s = (\<forall>p v x. fst (s p v) = OK x \<longrightarrow> added (s p v) = [])"

definition keeps :: "schema \<Rightarrow> bool" where
  "keeps s = (\<forall>p v. fst (s p v) \<noteq> INVALID \<longrightarrow> value_of (fst (s p v)) = v \<and> v \<noteq> JUndefined)"

definition rooted :: "schema \<Rightarrow> bool" where
  "rooted s = (\<forall>p v i. i \<in> set (added (s p v)) \<longrightarrow> take (length p) (path i) = p)"

text \<open>
  A log made of whole rounds only, and the invariant of the page at rest: while
  \<^verbatim>\<open>loading\<close> is set exactly one call waits and the log ends with its sleep; otherwise
  no call waits and the log consists of whole rounds.
\<close>

fun rounds :: "effect list \<Rightarrow> bool" where
  "rounds [] = True"
| "rounds (Sleep n # NotyfSuccess m # rest) = (n = 1600 \<and> rounds rest)"
| "rounds (Sleep n # SetFieldError f m # ScrollTo t # rest) = (n = 1600 \<and> rounds rest)"
| "rounds log = False"

definition at_rest :: "page \<Rightarrow> bool" where
  "at_rest s =
     (if loading (comp s)
      then \<exists>x ys. waiting s = [x] \<and> effects (comp s) = ys @ [Sleep 1600] \<and> rounds ys
      else waiting s = [] \<and> rounds (effects (comp s)))"

subsection \<open>Sample states and inputs\<close>

text \<open>
  A sample environment (an email pattern that only asks for an \<^verbatim>\<open>@\<close>) and sample
  inputs, for evaluating the model on concrete data.
\<close>

definition has_at :: "string \<Rightarrow> bool" where
  "has_at s = (CHR ''@'' \<in> set s)"

definition sample_env :: env where
  "sample_env = \<lparr>emailRegex_test = has_at, setup_time = 1700000000000\<rparr>"

definition sample_values :: "string \<Rightarrow> string \<Rightarrow> string \<Rightarrow> (string \<times> jsval) list" where
  "sample_values em pw pwc =
     [(''email'', JStr em),
      (''password'', JStr pw),
      (''passwordCheck'', JStr pwc),
      (''birthdate'', JNull),
      (''interests'', JArr [JStr ''Food'', JStr ''Home Appliances'']),
      (''agreeTerms'', JBool True),
      (''emailOptin'', JBool False)]"

definition idle :: component where
  "idle = \<lparr>loading = False, effects = []\<rparr>"

definition busy :: component where
  "busy = \<lparr>loading = True, effects = [Sleep 1600]\<rparr>"

definition awesome :: jsval where
  "awesome = JObj (sample_values ''awesome@cssninja.io'' ''12345678'' ''12345678'')"

definition taken :: jsval where
  "taken = JObj (sample_values ''jane@example.org'' ''12345678'' ''12345678'')"

definition missing_optin :: "(string \<times> jsval) list" where
  "missing_optin =
     [(''email'', JStr ''jane@example.org''),
      (''password'', JStr ''12345678''),
      (''passwordCheck'', JStr ''87654321''),
      (''birthdate'', JNull),
      (''interests'', JArr [JStr ''Food'', JStr ''Home Appliances'']),
      (''agreeTerms'', JBool True)]"

definition null_email :: "(string \<times> jsval) list" where
  "null_email =
     [(''email'', JNull),
      (''password'', JStr ''12345678''),
      (''passwordCheck'', JStr ''12345678''),
      (''birthdate'', JNull),
      (''interests'', JArr [JStr ''Food'', JStr ''Home Appliances'']),
      (''agreeTerms'', JBool True),
      (''emailOptin'', JBool False)]"

definition number_email :: "(string \<times> jsval) list" where
  "number_email =
     [(''email'', JNum 42),
      (''password'', JStr ''12345678''),
      (''passwordCheck'', JStr ''12345678''),
      (''birthdate'', JNull),
      (''interests'', JArr [JStr ''Food'', JStr ''Home Appliances'']),
      (''agreeTerms'', JBool True),
      (''emailOptin'', JBool False)]"

definition with_interests :: "jsval list \<Rightarrow> (string \<times> jsval) list" where
  "with_interests xs =
     (''interests'', JArr xs) # sample_values ''jane@example.org'' ''12345678'' ''12345678''"

section \<open>Properties of the combinators\<close>

subsection \<open>The two issue lists\<close>

lemma sync_issues_tuple [simp]: "sync_issues (r, now, later) = now"
  by (simp add: sync_issues_def)

lemma late_issues_tuple [simp]: "late_issues (r, now, later) = later"
  by (simp add: late_issues_def)

lemma added_tuple [simp]: "added (r, now, later) = now @ later"
  by (simp add: added_def)

lemma added_Nil: "added r = [] \<longleftrightarrow> sync_issues r = [] \<and> late_issues r = []"
  by (simp add: added_def)

lemma set_added: "set (added r) = set (sync_issues r) \<union> set (late_issues r)"
  by (simp add: added_def)

subsection \<open>A valid result has no issue\<close>

lemma clean_z_string: "clean (z_string e r cs)"
  by (auto simp: clean_def z_string_def Let_def split: jsval.splits if_splits)

lemma clean_z_date_max: "clean (z_date_max r i t m)"
  by (auto simp: clean_def z_date_max_def split: jsval.splits option.splits if_splits)

lemma clean_z_nullable: "clean s \<Longrightarrow> clean (z_nullable s)"
  by (auto simp: clean_def z_nullable_def)

lemma clean_z_boolean: "clean z_boolean"
  by (auto simp: clean_def z_boolean_def split: jsval.splits)

lemma clean_z_refine:
  assumes "clean s" shows "clean (z_refine c m rp s)"
  unfolding clean_def
proof (intro allI impI)
  fix p v x
  assume ok: "fst (z_refine c m rp s p v) = OK x"
  obtain r now later where r: "s p v = (r, now, later)" by (cases "s p v")
  with ok have "r = OK x" and same: "z_refine c m rp s p v = s p v"
    by (cases r; simp add: z_refine_def split: if_splits)+
  from assms have "fst (s p v) = OK x \<Longrightarrow> added (s p v) = []"
    unfolding clean_def by blast
  with r \<open>r = OK x\<close> same show "added (z_refine c m rp s p v) = []" by simp
qed

lemma mergeArray_OK: "mergeArray d acc rs = OK x \<Longrightarrow> \<not> d \<and> (\<forall>r \<in> set rs. \<exists>y. r = OK y)"
  by (induction d acc rs rule: mergeArray.induct) (auto split: if_splits)

lemma mergeObject_OK:
  "mergeObject d acc rs = OK x \<Longrightarrow> \<not> d \<and> (\<forall>(k, a, r) \<in> set rs. \<exists>y. r = OK y)"
  by (induction d acc rs rule: mergeObject.induct) (auto split: if_splits)

lemma mergeObject_INVALID:
  "mergeObject d acc rs = INVALID \<longleftrightarrow> INVALID \<in> set (map (\<lambda>(k, a, r). r) rs)"
  by (induction d acc rs rule: mergeObject.induct) (auto split: if_splits)

lemma mergeArray_INVALID:
  "mergeArray d acc rs = INVALID \<longleftrightarrow> INVALID \<in> set rs"
  by (induction d acc rs rule: mergeArray.induct) (auto split: if_splits)

lemma clean_z_array:
  assumes "clean s" shows "clean (z_array_min_max s lo ml hi mh)"
  unfolding clean_def
proof (intro allI impI)
  fix p v x
  assume ok: "fst (z_array_min_max s lo ml hi mh p v) = OK x"
  then obtain xs where v: "v = JArr xs"
    by (cases v) (auto simp: z_array_min_max_def)
  let ?rs = "map (\<lambda>(i, x). s (p @ [Idx i]) x) (enumerate 0 xs)"
  let ?len = "(if length xs < lo then [Issue too_small p ml] else []) @
              (if hi < length xs then [Issue too_big p mh] else [])"
  from ok v have m: "mergeArray (?len \<noteq> []) [] (map fst ?rs) = OK x"
    by (simp add: z_array_min_max_def Let_def)
  from mergeArray_OK[OF m] have len: "?len = []" and all: "\<forall>r \<in> set (map fst ?rs). \<exists>y. r = OK y"
    by blast+
  have "\<forall>r \<in> set ?rs. added r = []"
  proof
    fix r assume r: "r \<in> set ?rs"
    then obtain i y where "r = s (p @ [Idx i]) y" by auto
    moreover from r all obtain z where "fst r = OK z" by auto
    ultimately show "added r = []" using assms by (auto simp: clean_def)
  qed
  then have "concat (map sync_issues ?rs) = []" "concat (map late_issues ?rs) = []"
    by (simp_all add: added_Nil)
  with len v show "added (z_array_min_max s lo ml hi mh p v) = []"
    by (simp add: z_array_min_max_def Let_def)
qed

lemma clean_z_object:
  assumes "\<forall>(k, s) \<in> set shape. clean s" shows "clean (z_object shape)"
  unfolding clean_def
proof (intro allI impI)
  fix p v x
  assume ok: "fst (z_object shape p v) = OK x"
  then obtain kvs where v: "v = JObj kvs"
    by (cases v) (auto simp: z_object_def)
  let ?rs = "map (\<lambda>(k, s). (k, s (p @ [Key k]) (js_get kvs k))) shape"
  from ok v have m: "mergeObject False []
                 (map (\<lambda>(k, r). (k, k \<in> fst ` set kvs, fst r)) ?rs) = OK x"
    by (simp add: z_object_def Let_def)
  have "\<forall>kr \<in> set ?rs. added (snd kr) = []"
  proof
    fix kr assume kr: "kr \<in> set ?rs"
    then obtain k s where ks: "(k, s) \<in> set shape" "kr = (k, s (p @ [Key k]) (js_get kvs k))"
      by auto
    from kr have "(fst kr, fst kr \<in> fst ` set kvs, fst (snd kr)) \<in> set (map (\<lambda>(k, r). (k, k \<in> fst ` set kvs, fst r)) ?rs)"
      by force
    with mergeObject_OK[OF m] obtain z where "fst (snd kr) = OK z" by fastforce
    with ks assms show "added (snd kr) = []" by (auto simp: clean_def)
  qed
  then have "concat (map (\<lambda>(k, r). sync_issues r) ?rs) = []"
    "concat (map (\<lambda>(k, r). late_issues r) ?rs) = []"
    by (auto simp: case_prod_beta added_Nil)
  with v show "added (z_object shape p v) = []"
    by (simp add: z_object_def Let_def)
qed

lemma clean_validationSchema: "clean (validationSchema e)"
  unfolding validationSchema_def
  by (intro clean_z_refine clean_z_object)
     (simp add: form_shape_def email_schema_def password_schema_def passwordCheck_schema_def
        birthdate_schema_def agreeTerms_schema_def interests_schema_def emailOptin_schema_def
        clean_z_string clean_z_date_max clean_z_nullable clean_z_boolean clean_z_refine clean_z_array)

lemma validate_Passed_iff: "validate e v = Passed x \<longleftrightarrow> fst (validationSchema e [] v) = OK x"
  by (auto simp: validate_def safeParseAsync_def split: prod.splits parse_return.splits)

lemma validate_Failed_issues: "validate e v = Failed iss \<Longrightarrow> iss = issues e v"
  by (auto simp: validate_def safeParseAsync_def issues_def split: prod.splits parse_return.splits)

subsection \<open>A result that is not aborted keeps the data\<close>

lemma keeps_z_string: "keeps (z_string e r cs)"
  by (auto simp: keeps_def z_string_def Let_def split: jsval.splits if_splits)

lemma keeps_z_date_max: "keeps (z_date_max r i t m)"
  by (auto simp: keeps_def z_date_max_def split: jsval.splits option.splits if_splits)

lemma keeps_z_boolean: "keeps z_boolean"
  by (auto simp: keeps_def z_boolean_def split: jsval.splits)

lemma keeps_z_nullable: "keeps s \<Longrightarrow> keeps (z_nullable s)"
  by (auto simp: keeps_def z_nullable_def)

lemma keeps_z_refine: "keeps s \<Longrightarrow> keeps (z_refine c m rp s)"
  unfolding keeps_def z_refine_def
  by (auto split: prod.splits parse_return.splits if_splits)
     (metis fst_conv value_of.simps parse_return.distinct)+

lemma mergeArray_value:
  "\<forall>r \<in> set rs. r \<noteq> INVALID \<Longrightarrow>
   mergeArray d acc rs \<noteq> INVALID \<and> value_of (mergeArray d acc rs) = JArr (acc @ map value_of rs)"
  by (induction d acc rs rule: mergeArray.induct) auto

lemma keeps_z_array:
  assumes "keeps s" shows "keeps (z_array_min_max s lo ml hi mh)"
  unfolding keeps_def
proof (intro allI impI)
  fix p v
  assume ok: "fst (z_array_min_max s lo ml hi mh p v) \<noteq> INVALID"
  then obtain xs where v: "v = JArr xs"
    by (cases v) (auto simp: z_array_min_max_def)
  let ?rs = "map (\<lambda>(i, x). s (p @ [Idx i]) x) (enumerate 0 xs)"
  let ?d = "(if length xs < lo then [Issue too_small p ml] else []) @
            (if hi < length xs then [Issue too_big p mh] else []) \<noteq> []"
  have res: "fst (z_array_min_max s lo ml hi mh p v) = mergeArray ?d [] (map fst ?rs)"
    using v by (simp add: z_array_min_max_def Let_def)
  have ninv: "INVALID \<notin> set (map fst ?rs)"
    using ok unfolding res mergeArray_INVALID .
  then have all: "\<forall>r \<in> set (map fst ?rs). r \<noteq> INVALID" by metis
  have el: "value_of (fst (s (p @ [Idx n]) x)) = x" if "(n, x) \<in> set (enumerate 0 xs)" for n x
  proof -
    from that ninv have "fst (s (p @ [Idx n]) x) \<noteq> INVALID" by force
    with assms show ?thesis by (simp add: keeps_def)
  qed
  have "map value_of (map fst ?rs) = map snd (enumerate 0 xs)"
    unfolding map_map by (rule map_cong[OF refl]) (auto simp: el)
  then have "map value_of (map fst ?rs) = xs" by simp
  with mergeArray_value[OF all, of ?d "[]"] res v
  show "value_of (fst (z_array_min_max s lo ml hi mh p v)) = v \<and> v \<noteq> JUndefined"
    by simp
qed

lemma mergeObject_value:
  "\<forall>(k, a, r) \<in> set rs. r \<noteq> INVALID \<and> value_of r \<noteq> JUndefined \<Longrightarrow>
   mergeObject d acc rs \<noteq> INVALID \<and>
   value_of (mergeObject d acc rs) = JObj (acc @ map (\<lambda>(k, a, r). (k, value_of r)) rs)"
  by (induction d acc rs rule: mergeObject.induct) auto

lemma keeps_fields:
  "keeps (email_schema e)" "keeps (password_schema e)" "keeps (passwordCheck_schema e)"
  "keeps (birthdate_schema e)" "keeps agreeTerms_schema" "keeps (interests_schema e)"
  "keeps emailOptin_schema"
  by (simp_all add: email_schema_def password_schema_def passwordCheck_schema_def
      birthdate_schema_def agreeTerms_schema_def interests_schema_def emailOptin_schema_def
      keeps_z_string keeps_z_date_max keeps_z_nullable keeps_z_boolean keeps_z_refine
      keeps_z_array)

lemma keepsD: "keeps s \<Longrightarrow> fst (s p v) \<noteq> INVALID \<Longrightarrow> value_of (fst (s p v)) = v \<and> v \<noteq> JUndefined"
  by (simp add: keeps_def)

subsection \<open>Issues lie below the parser's path\<close>

lemma rooted_z_string: "rooted (z_string e r cs)"
proof -
  have "i \<in> set (string_check_issues e p s c) \<Longrightarrow> path i = p" for i p s c
    by (cases c) (auto split: if_splits)
  then show ?thesis
    by (auto simp: rooted_def z_string_def Let_def invalid_type_issue_def split: jsval.splits)
qed

lemma rooted_z_date_max: "rooted (z_date_max r i t m)"
  by (auto simp: rooted_def z_date_max_def invalid_type_issue_def
      split: jsval.splits option.splits if_splits)

lemma rooted_z_nullable: "rooted s \<Longrightarrow> rooted (z_nullable s)"
  by (auto simp: rooted_def z_nullable_def)

lemma rooted_z_boolean: "rooted z_boolean"
  by (auto simp: rooted_def z_boolean_def invalid_type_issue_def split: jsval.splits)

lemma rooted_z_refine:
  assumes "rooted s" shows "rooted (z_refine c m rp s)"
  unfolding rooted_def
proof (intro allI impI)
  fix p v i
  assume i: "i \<in> set (added (z_refine c m rp s p v))"
  obtain r now later where r: "s p v = (r, now, later)" by (cases "s p v")
  with i have "i \<in> set (added (s p v)) \<or> path i = p @ rp"
    by (cases r) (auto simp: z_refine_def split: if_splits)
  with assms show "take (length p) (path i) = p"
    by (auto simp: rooted_def)
qed

lemma take_shorter: "take (length (p @ q)) xs = p @ q \<Longrightarrow> take (length p) xs = p"
  by (metis append_eq_conv_conj take_take min.absorb1 length_append le_add1)

lemma rooted_z_array:
  assumes "rooted s" shows "rooted (z_array_min_max s lo ml hi mh)"
  unfolding rooted_def
proof (intro allI impI)
  fix p v i
  assume i: "i \<in> set (added (z_array_min_max s lo ml hi mh p v))"
  show "take (length p) (path i) = p"
  proof (cases v)
    case (JArr xs)
    with i consider "path i = p" | n x where "i \<in> set (added (s (p @ [Idx n]) x))"
      by (auto simp: z_array_min_max_def Let_def set_added split: if_splits)
    then show ?thesis
    proof cases
      case 1 then show ?thesis by simp
    next
      case 2
      with assms have "take (length (p @ [Idx n])) (path i) = p @ [Idx n]"
        unfolding rooted_def by blast
      then show ?thesis by (rule take_shorter)
    qed
  qed (use i in \<open>auto simp: z_array_min_max_def invalid_type_issue_def\<close>)
qed

lemma rooted_fields:
  "rooted (email_schema e)" "rooted (password_schema e)" "rooted (passwordCheck_schema e)"
  "rooted (birthdate_schema e)" "rooted agreeTerms_schema" "rooted (interests_schema e)"
  "rooted emailOptin_schema"
  by (simp_all add: email_schema_def password_schema_def passwordCheck_schema_def
      birthdate_schema_def agreeTerms_schema_def interests_schema_def emailOptin_schema_def
      rooted_z_string rooted_z_date_max rooted_z_nullable rooted_z_boolean rooted_z_refine
      rooted_z_array)

subsection \<open>When a field aborts\<close>

lemma z_string_INVALID: "fst (z_string e r cs p v) = INVALID \<longleftrightarrow> \<not> is_string v"
  by (cases v) (auto simp: z_string_def Let_def)

lemma z_boolean_INVALID: "fst (z_boolean p v) = INVALID \<longleftrightarrow> \<not> is_boolean v"
  by (cases v) (auto simp: z_boolean_def)

lemma z_refine_INVALID: "fst (z_refine c m rp s p v) = INVALID \<longleftrightarrow> fst (s p v) = INVALID"
  by (auto simp: z_refine_def split: prod.splits parse_return.splits)

lemma z_refine_OK: "fst (z_refine c m rp s p v) = OK x \<Longrightarrow> fst (s p v) = OK x \<and> c x"
  by (auto simp: z_refine_def split: prod.splits parse_return.splits if_splits)

lemma birthdate_INVALID: "fst (birthdate_schema e p v) = INVALID \<longleftrightarrow> \<not> is_date_or_null v"
  by (cases v rule: is_date_or_null.cases)
     (auto simp: birthdate_schema_def z_nullable_def z_date_max_def)

lemma interests_INVALID: "fst (interests_schema e p v) = INVALID \<longleftrightarrow> \<not> is_string_array v"
proof (cases v)
  case (JArr xs)
  have "(INVALID \<in> set (map fst (map (\<lambda>(i, x). z_string e None [] (p @ [Idx i]) x) (enumerate n xs))))
        \<longleftrightarrow> \<not> list_all is_string xs" for n
    by (induction xs arbitrary: n) (auto simp: z_string_INVALID eq_commute[of INVALID])
  with JArr show ?thesis
    by (simp add: interests_schema_def z_array_min_max_def Let_def mergeArray_INVALID del: set_map)
qed (auto simp: interests_schema_def z_array_min_max_def)

lemma fields_INVALID:
  "fst (email_schema e p v) = INVALID \<longleftrightarrow> \<not> is_string v"
  "fst (password_schema e p v) = INVALID \<longleftrightarrow> \<not> is_string v"
  "fst (passwordCheck_schema e p v) = INVALID \<longleftrightarrow> \<not> is_string v"
  "fst (agreeTerms_schema p v) = INVALID \<longleftrightarrow> \<not> is_boolean v"
  "fst (emailOptin_schema p v) = INVALID \<longleftrightarrow> \<not> is_boolean v"
  by (simp_all add: email_schema_def password_schema_def passwordCheck_schema_def
      agreeTerms_schema_def emailOptin_schema_def z_string_INVALID z_boolean_INVALID
      z_refine_INVALID)

section \<open>The schema of the form\<close>

text \<open>
  The object parser runs the seven field parsers in order and concatenates their
  issues; it aborts exactly when a field is not of its declared type, and otherwise
  returns the parsed copy of the data.
\<close>

lemma form_results:
  "fst (z_object (form_shape e) p (JObj kvs)) =
     mergeObject False []
       [(''email'', ''email'' \<in> fst ` set kvs, fst (email_schema e (p @ [Key ''email'']) (js_get kvs ''email''))),
        (''password'', ''password'' \<in> fst ` set kvs, fst (password_schema e (p @ [Key ''password'']) (js_get kvs ''password''))),
        (''passwordCheck'', ''passwordCheck'' \<in> fst ` set kvs, fst (passwordCheck_schema e (p @ [Key ''passwordCheck'']) (js_get kvs ''passwordCheck''))),
        (''birthdate'', ''birthdate'' \<in> fst ` set kvs, fst (birthdate_schema e (p @ [Key ''birthdate'']) (js_get kvs ''birthdate''))),
        (''agreeTerms'', ''agreeTerms'' \<in> fst ` set kvs, fst (agreeTerms_schema (p @ [Key ''agreeTerms'']) (js_get kvs ''agreeTerms''))),
        (''interests'', ''interests'' \<in> fst ` set kvs, fst (interests_schema e (p @ [Key ''interests'']) (js_get kvs ''interests''))),
        (''emailOptin'', ''emailOptin'' \<in> fst ` set kvs, fst (emailOptin_schema (p @ [Key ''emailOptin'']) (js_get kvs ''emailOptin'')))]"
  by (simp add: z_object_def form_shape_def)

lemma form_issues:
  "sync_issues (z_object (form_shape e) p (JObj kvs)) =
     sync_issues (email_schema e (p @ [Key ''email'']) (js_get kvs ''email'')) @
     sync_issues (password_schema e (p @ [Key ''password'']) (js_get kvs ''password'')) @
     sync_issues (passwordCheck_schema e (p @ [Key ''passwordCheck'']) (js_get kvs ''passwordCheck'')) @
     sync_issues (birthdate_schema e (p @ [Key ''birthdate'']) (js_get kvs ''birthdate'')) @
     sync_issues (agreeTerms_schema (p @ [Key ''agreeTerms'']) (js_get kvs ''agreeTerms'')) @
     sync_issues (interests_schema e (p @ [Key ''interests'']) (js_get kvs ''interests'')) @
     sync_issues (emailOptin_schema (p @ [Key ''emailOptin'']) (js_get kvs ''emailOptin''))"
  "late_issues (z_object (form_shape e) p (JObj kvs)) =
     late_issues (email_schema e (p @ [Key ''email'']) (js_get kvs ''email'')) @
     late_issues (password_schema e (p @ [Key ''password'']) (js_get kvs ''password'')) @
     late_issues (passwordCheck_schema e (p @ [Key ''passwordCheck'']) (js_get kvs ''passwordCheck'')) @
     late_issues (birthdate_schema e (p @ [Key ''birthdate'']) (js_get kvs ''birthdate'')) @
     late_issues (agreeTerms_schema (p @ [Key ''agreeTerms'']) (js_get kvs ''agreeTerms'')) @
     late_issues (interests_schema e (p @ [Key ''interests'']) (js_get kvs ''interests'')) @
     late_issues (emailOptin_schema (p @ [Key ''emailOptin'']) (js_get kvs ''emailOptin''))"
  by (simp_all add: z_object_def form_shape_def)

lemma form_aborts:
  "fst (z_object (form_shape e) p (JObj kvs)) = INVALID \<longleftrightarrow> \<not> fields_typed kvs"
  unfolding form_results mergeObject_INVALID fields_typed_def
  by (simp add: email_schema_def password_schema_def passwordCheck_schema_def
      agreeTerms_schema_def emailOptin_schema_def z_string_INVALID z_boolean_INVALID
      z_refine_INVALID birthdate_INVALID interests_INVALID eq_commute[of INVALID])

lemma form_value:
  assumes "fields_typed kvs"
  shows "fst (z_object (form_shape e) p (JObj kvs)) \<noteq> INVALID \<and>
         value_of (fst (z_object (form_shape e) p (JObj kvs))) = JObj (parsed kvs)"
proof -
  from assms have t:
    "fst (email_schema e (p @ [Key ''email'']) (js_get kvs ''email'')) \<noteq> INVALID"
    "fst (password_schema e (p @ [Key ''password'']) (js_get kvs ''password'')) \<noteq> INVALID"
    "fst (passwordCheck_schema e (p @ [Key ''passwordCheck'']) (js_get kvs ''passwordCheck'')) \<noteq> INVALID"
    "fst (birthdate_schema e (p @ [Key ''birthdate'']) (js_get kvs ''birthdate'')) \<noteq> INVALID"
    "fst (agreeTerms_schema (p @ [Key ''agreeTerms'']) (js_get kvs ''agreeTerms'')) \<noteq> INVALID"
    "fst (interests_schema e (p @ [Key ''interests'']) (js_get kvs ''interests'')) \<noteq> INVALID"
    "fst (emailOptin_schema (p @ [Key ''emailOptin'']) (js_get kvs ''emailOptin'')) \<noteq> INVALID"
    by (simp_all add: fields_typed_def fields_INVALID birthdate_INVALID interests_INVALID)
  note v = keepsD[OF keeps_fields(1) t(1)] keepsD[OF keeps_fields(2) t(2)]
    keepsD[OF keeps_fields(3) t(3)] keepsD[OF keeps_fields(4) t(4)]
    keepsD[OF keeps_fields(5) t(5)] keepsD[OF keeps_fields(6) t(6)]
    keepsD[OF keeps_fields(7) t(7)]
  have "\<forall>(k, a, r) \<in> set rs. r \<noteq> INVALID \<and> value_of r \<noteq> JUndefined \<Longrightarrow>
        mergeObject False [] rs \<noteq> INVALID \<and>
        value_of (mergeObject False [] rs) = JObj (map (\<lambda>(k, a, r). (k, value_of r)) rs)" for rs
    using mergeObject_value[of rs False "[]"] by simp
  then show ?thesis
    unfolding form_results by (simp add: t v parsed_def)
qed

lemma passwords_match_parsed:
  "passwords_match (JObj (parsed kvs)) =
     strict_eq (js_get kvs ''password'') (js_get kvs ''passwordCheck'')"
  by (simp add: passwords_match_def parsed_def js_get_def)

text \<open>
  All issues of a validation: those of the fields, then the mismatch issue when the
  refinement ran and failed.
\<close>

lemma validation_issues:
  "issues e (JObj kvs) =
     added (z_object (form_shape e) [] (JObj kvs)) @
     (if fields_typed kvs \<and>
         \<not> strict_eq (js_get kvs ''password'') (js_get kvs ''passwordCheck'')
      then [mismatch] else [])"
proof (cases "fields_typed kvs")
  case True
  obtain r now later where r: "z_object (form_shape e) [] (JObj kvs) = (r, now, later)"
    by (cases "z_object (form_shape e) [] (JObj kvs)")
  with form_value[OF True, of e "[]"] have "r \<noteq> INVALID" "value_of r = JObj (parsed kvs)"
    by simp_all
  with r True show ?thesis
    by (cases r)
       (simp_all add: issues_def validationSchema_def z_refine_def passwords_match_parsed
          mismatch_def)
next
  case False
  then have "fst (z_object (form_shape e) [] (JObj kvs)) = INVALID"
    by (simp add: form_aborts)
  with False show ?thesis
    by (cases "z_object (form_shape e) [] (JObj kvs)")
       (simp add: issues_def validationSchema_def z_refine_def)
qed

lemma valid_no_issues: "valid e v \<Longrightarrow> issues e v = []"
proof -
  assume "valid e v"
  then obtain x where "validate e v = Passed x"
    by (auto simp: valid_def split: validation.splits)
  then have "fst (validationSchema e [] v) = OK x" by (simp add: validate_Passed_iff)
  with clean_validationSchema[of e] show "issues e v = []"
    by (auto simp: clean_def issues_def)
qed

lemma field_errors_issues: "field_errors e v k = errors_at (issues e v) [Key k]"
proof (cases "validate e v")
  case (Passed x)
  then have "valid e v" by (simp add: valid_def)
  then have "issues e v = []" by (rule valid_no_issues)
  with Passed show ?thesis by (simp add: field_errors_def errors_at_def)
next
  case (Failed iss)
  with validate_Failed_issues[OF Failed] show ?thesis by (simp add: field_errors_def)
qed

lemma errors_at_append [simp]: "errors_at (xs @ ys) p = errors_at xs p @ errors_at ys p"
  by (simp add: errors_at_def)

lemma errors_at_Nil [simp]: "errors_at [] p = []"
  by (simp add: errors_at_def)

lemma errors_at_rooted:
  assumes "rooted s" "k \<noteq> k'"
  shows "errors_at (sync_issues (s [Key k] v)) [Key k'] = []"
    and "errors_at (late_issues (s [Key k] v)) [Key k'] = []"
proof -
  have "path i \<noteq> [Key k']" if "i \<in> set (added (s [Key k] v))" for i
  proof -
    from assms(1) that have "take (length [Key k]) (path i) = [Key k]"
      unfolding rooted_def by blast
    with assms(2) show ?thesis by auto
  qed
  then show "errors_at (sync_issues (s [Key k] v)) [Key k'] = []"
    and "errors_at (late_issues (s [Key k] v)) [Key k'] = []"
    by (simp_all add: errors_at_def set_added)
qed

lemma errors_at_mismatch [simp]:
  "errors_at [mismatch] [Key k] =
     (if k = ''passwordCheck'' then [''The confirmation does not match the password''] else [])"
  by (simp add: errors_at_def mismatch_def)

lemmas other_fields =
  rooted_fields[THEN errors_at_rooted(1)] rooted_fields[THEN errors_at_rooted(2)]

lemma field_errors_email:
  "field_errors e (JObj kvs) ''email'' =
     errors_at (added (email_schema e [Key ''email''] (js_get kvs ''email''))) [Key ''email'']"
  by (simp add: field_errors_issues validation_issues form_issues other_fields added_def)

lemma field_errors_password:
  "field_errors e (JObj kvs) ''password'' =
     errors_at (added (password_schema e [Key ''password''] (js_get kvs ''password''))) [Key ''password'']"
  by (simp add: field_errors_issues validation_issues form_issues other_fields added_def)

lemma field_errors_interests:
  "field_errors e (JObj kvs) ''interests'' =
     errors_at (added (interests_schema e [Key ''interests''] (js_get kvs ''interests''))) [Key ''interests'']"
  by (simp add: field_errors_issues validation_issues form_issues other_fields added_def)

lemma field_errors_passwordCheck:
  "field_errors e (JObj kvs) ''passwordCheck'' =
     errors_at (added (passwordCheck_schema e [Key ''passwordCheck''] (js_get kvs ''passwordCheck''))) [Key ''passwordCheck''] @
     (if fields_typed kvs \<and>
         \<not> strict_eq (js_get kvs ''password'') (js_get kvs ''passwordCheck'')
      then [''The confirmation does not match the password''] else [])"
  by (simp add: field_errors_issues validation_issues form_issues other_fields added_def)

lemma field_errors_invalid: "field_errors e v k \<noteq> [] \<Longrightarrow> \<not> valid e v"
  by (auto simp: field_errors_def valid_def split: validation.splits)

lemma untyped_invalid: "\<not> fields_typed kvs \<Longrightarrow> \<not> valid e (JObj kvs)"
proof
  assume nt: "\<not> fields_typed kvs" and "valid e (JObj kvs)"
  then obtain x where "fst (validationSchema e [] (JObj kvs)) = OK x"
    by (auto simp: valid_def validate_Passed_iff split: validation.splits)
  moreover from nt have "fst (validationSchema e [] (JObj kvs)) = INVALID"
    by (simp add: validationSchema_def z_refine_INVALID form_aborts)
  ultimately show False by simp
qed

lemma validate_Passed:
  assumes "validate e v = Passed x"
  shows "\<exists>kvs. v = JObj kvs \<and> fields_typed kvs \<and> x = JObj (parsed kvs)"
proof -
  from assms have "fst (validationSchema e [] v) = OK x"
    by (simp add: validate_Passed_iff)
  then have ok: "fst (z_object (form_shape e) [] v) = OK x"
    unfolding validationSchema_def by (rule z_refine_OK[THEN conjunct1])
  then obtain kvs where v: "v = JObj kvs"
    by (cases v) (auto simp: z_object_def)
  from ok v have t: "fields_typed kvs" using form_aborts[of e "[]" kvs] by auto
  from form_value[OF t, of e "[]"] ok v have "x = JObj (parsed kvs)" by simp
  with v t show ?thesis by blast
qed

lemma validated_email:
  assumes "validate e v = Passed x"
  shows "strict_eq (field x ''email'') (JStr a) \<longleftrightarrow> field v ''email'' = JStr a"
proof -
  from validate_Passed[OF assms] obtain kvs where
    k: "v = JObj kvs" "fields_typed kvs" "x = JObj (parsed kvs)" by blast
  then obtain s where "js_get kvs ''email'' = JStr s"
    by (cases "js_get kvs ''email''") (auto simp: fields_typed_def)
  with k show ?thesis by (simp add: parsed_def js_get_def)
qed

section \<open>The page at rest\<close>

lemma rounds_append: "rounds xs \<Longrightarrow> rounds ys \<Longrightarrow> rounds (xs @ ys)"
  by (induction xs rule: rounds.induct) auto

lemma rounds_delay_first: "rounds xs \<Longrightarrow> delay_first xs"
  by (induction xs rule: rounds.induct) auto

lemma rounds_pending: "rounds xs \<Longrightarrow> delay_first (xs @ [Sleep 1600])"
  by (induction xs rule: rounds.induct) auto

lemma at_rest_initial: "at_rest initial_page"
  by (simp add: at_rest_def initial_page_def)

lemma at_rest_step: "at_rest s \<Longrightarrow> at_rest (step e s ev)"
proof (cases ev)
  case (Submit v)
  assume "at_rest s"
  then show ?thesis
    unfolding Submit
    by (cases "validate e v")
       (auto simp: at_rest_def handleSignup_def handleSubmit_def signup_enter_def)
next
  case TimerFires
  assume a: "at_rest s"
  show ?thesis
  proof (cases "waiting s")
    case Nil
    with a TimerFires show ?thesis by simp
  next
    case (Cons x rest)
    with a obtain ys where "rest = []" "effects (comp s) = ys @ [Sleep 1600]" "rounds ys"
      by (auto simp: at_rest_def split: if_splits)
    with Cons TimerFires show ?thesis
      by (auto simp: at_rest_def signup_resume_def intro!: rounds_append)
  qed
qed

lemma run_snoc: "run e (evs @ [ev]) = step e (run e evs) ev"
  by (simp add: run_def)

lemma at_rest_run: "at_rest (run e evs)"
  by (induction evs rule: rev_induct)
     (simp_all add: run_snoc at_rest_step, simp add: run_def at_rest_initial)

section \<open>The claims\<close>

text \<open>
  C1. The submission is gated by schema validation: the callback passed to
  \<^verbatim>\<open>handleSubmit\<close> is called if and only if the form values are valid, and then the
  handler does exactly what the callback's first segment does. When validation fails the
  handler returns the validation issues and leaves the component as it was: no sleep,
  no notification and no \<^verbatim>\<open>setFieldError\<close> is added to the log, and \<^verbatim>\<open>loading\<close> is
  untouched.
\<close>

theorem submission_gated_by_validation:
  "((\<exists>t c'. handleSignup e v c = (Called t, c')) \<longleftrightarrow> valid e v) \<and>
   (\<forall>iss. validate e v = Failed iss \<longrightarrow> handleSignup e v c = (Rejected iss, c)) \<and>
   (\<forall>x. validate e v = Passed x \<longrightarrow>
      handleSignup e v c = (Called (fst (signup_enter x c)), snd (signup_enter x c)))"
  by (cases "validate e v")
     (auto simp: handleSignup_def handleSubmit_def valid_def split: prod.splits)

theorem submission_gated_by_validation_witness:
  "valid sample_env (JObj (sample_values ''jane@example.org'' ''12345678'' ''12345678'')) \<and>
   handleSignup sample_env
     (JObj (sample_values ''jane@example.org'' ''12345678'' ''12345678'')) idle =
     (Called (Awaiting 1600
        (JObj (parsed (sample_values ''jane@example.org'' ''12345678'' ''12345678'')))),
      \<lparr>loading = True, effects = [Sleep 1600]\<rparr>) \<and>
   \<not> valid sample_env (JObj (sample_values ''jane@example.org'' ''1234'' ''1234'')) \<and>
   handleSignup sample_env (JObj (sample_values ''jane@example.org'' ''1234'' ''1234'')) idle =
     (Rejected [Issue too_small [Key ''password'']
                  ''Your password should contains at least 8 characters''], idle)"
proof -
  have p: "validate sample_env
             (JObj (sample_values ''jane@example.org'' ''12345678'' ''12345678'')) =
           Passed (JObj (parsed (sample_values ''jane@example.org'' ''12345678'' ''12345678'')))"
    by code_simp
  have f: "validate sample_env (JObj (sample_values ''jane@example.org'' ''1234'' ''1234'')) =
           Failed [Issue too_small [Key ''password'']
                     ''Your password should contains at least 8 characters'']"
    by code_simp
  show ?thesis
    using submission_gated_by_validation
            [of sample_env "JObj (sample_values ''jane@example.org'' ''12345678'' ''12345678'')" idle]
          submission_gated_by_validation
            [of sample_env "JObj (sample_values ''jane@example.org'' ''1234'' ''1234'')" idle]
    by (simp add: p f valid_def signup_enter_def idle_def)
qed

text \<open>
  C2, as amended. For every input object, validation fails whenever \<^verbatim>\<open>password\<close> is
  not strictly equal to \<^verbatim>\<open>passwordCheck\<close>. The error
  "The confirmation does not match the password" is attached to the \<^verbatim>\<open>passwordCheck\<close>
  field exactly when, in addition, every field has its declared type: the refinement
  of the object is not executed when a field parser aborts.
\<close>

theorem password_confirmation:
  "(\<not> strict_eq (js_get kvs ''password'') (js_get kvs ''passwordCheck'') \<longrightarrow>
      \<not> valid e (JObj kvs)) \<and>
   (''The confirmation does not match the password''
      \<in> set (field_errors e (JObj kvs) ''passwordCheck'') \<longleftrightarrow>
    fields_typed kvs \<and>
    \<not> strict_eq (js_get kvs ''password'') (js_get kvs ''passwordCheck''))"
proof -
  have own: "''The confirmation does not match the password''
      \<notin> set (errors_at (added (passwordCheck_schema e [Key ''passwordCheck''] v)) [Key ''passwordCheck''])" for v
    by (cases v)
       (simp_all add: passwordCheck_schema_def z_string_def errors_at_def invalid_type_issue_def)
  have iff: "''The confirmation does not match the password''
      \<in> set (field_errors e (JObj kvs) ''passwordCheck'') \<longleftrightarrow>
    fields_typed kvs \<and>
    \<not> strict_eq (js_get kvs ''password'') (js_get kvs ''passwordCheck'')"
    using own by (simp add: field_errors_passwordCheck)
  have "\<not> valid e (JObj kvs)"
    if ne: "\<not> strict_eq (js_get kvs ''password'') (js_get kvs ''passwordCheck'')"
  proof (cases "fields_typed kvs")
    case True
    with ne iff have "field_errors e (JObj kvs) ''passwordCheck'' \<noteq> []" by auto
    then show ?thesis by (rule field_errors_invalid)
  next
    case False
    then show ?thesis by (rule untyped_invalid)
  qed
  with iff show ?thesis by blast
qed

theorem password_confirmation_witness:
  "fields_typed (sample_values ''jane@example.org'' ''12345678'' ''87654321'') \<and>
   \<not> strict_eq (JStr ''12345678'') (JStr ''87654321'') \<and>
   \<not> valid sample_env (JObj (sample_values ''jane@example.org'' ''12345678'' ''87654321'')) \<and>
   ''The confirmation does not match the password''
     \<in> set (field_errors sample_env
              (JObj (sample_values ''jane@example.org'' ''12345678'' ''87654321''))
              ''passwordCheck'')"
  using password_confirmation
          [of "sample_values ''jane@example.org'' ''12345678'' ''87654321''" sample_env]
  by (simp add: fields_typed_def sample_values_def js_get_def)

text \<open>
  The claim as first stated attaches the error whenever the two passwords differ. In an
  object with differing passwords and no \<^verbatim>\<open>emailOptin\<close> property, validation fails
  with the single issue of the missing property and \<^verbatim>\<open>passwordCheck\<close> gets no error.
\<close>

theorem password_confirmation_counterexample:
  "js_get missing_optin ''password'' = JStr ''12345678'' \<and>
   js_get missing_optin ''passwordCheck'' = JStr ''87654321'' \<and>
   validate sample_env (JObj missing_optin) =
     Failed [Issue invalid_type [Key ''emailOptin''] ''Required''] \<and>
   field_errors sample_env (JObj missing_optin) ''passwordCheck'' = []"
  by code_simp

text \<open>
  C3. For every input object whose \<^verbatim>\<open>password\<close> is a string of fewer than 8 code
  units, validation fails and the error of the \<^verbatim>\<open>password\<close> field is
  "Your password should contains at least 8 characters".
\<close>

theorem password_min_length:
  assumes "js_get kvs ''password'' = JStr s" and "length s < 8"
  shows "\<not> valid e (JObj kvs) \<and>
         field_errors e (JObj kvs) ''password'' =
           [''Your password should contains at least 8 characters'']"
proof -
  have "field_errors e (JObj kvs) ''password'' =
          [''Your password should contains at least 8 characters'']"
    using assms
    by (simp add: field_errors_password password_schema_def z_string_def errors_at_def)
  then show ?thesis using field_errors_invalid[of e "JObj kvs" "''password''"] by simp
qed

theorem password_min_length_witness:
  "js_get (sample_values ''jane@example.org'' ''1234567'' ''1234567'') ''password'' =
     JStr ''1234567'' \<and>
   length ''1234567'' < 8 \<and>
   \<not> valid sample_env (JObj (sample_values ''jane@example.org'' ''1234567'' ''1234567'')) \<and>
   field_errors sample_env (JObj (sample_values ''jane@example.org'' ''1234567'' ''1234567''))
     ''password'' = [''Your password should contains at least 8 characters'']"
  using password_min_length
          [of "sample_values ''jane@example.org'' ''1234567'' ''1234567''" "''1234567''" sample_env]
  by (simp add: sample_values_def js_get_def)

text \<open>
  C4, as amended. The email is required and has a format rule. For every input
  object: when \<^verbatim>\<open>email\<close> is absent (reads as \<^verbatim>\<open>undefined\<close>) validation fails with the
  error "Enter your email first" on the field; when \<^verbatim>\<open>email\<close> is a string that the
  email pattern rejects, validation fails with the error
  "A valid email address should be provided"; when \<^verbatim>\<open>email\<close> is present but not a
  string, validation fails with the default type error of zod,
  "Expected string, received" and the type of the value; and values are valid only if
  \<^verbatim>\<open>email\<close> is a string that the pattern accepts.
\<close>

theorem email_required_and_format:
  "(js_get kvs ''email'' = JUndefined \<longrightarrow>
      \<not> valid e (JObj kvs) \<and>
      field_errors e (JObj kvs) ''email'' = [''Enter your email first'']) \<and>
   (\<forall>s. js_get kvs ''email'' = JStr s \<and> \<not> emailRegex_test e s \<longrightarrow>
      \<not> valid e (JObj kvs) \<and>
      field_errors e (JObj kvs) ''email'' = [''A valid email address should be provided'']) \<and>
   (js_get kvs ''email'' \<noteq> JUndefined \<and> \<not> is_string (js_get kvs ''email'') \<longrightarrow>
      \<not> valid e (JObj kvs) \<and>
      field_errors e (JObj kvs) ''email'' =
        [''Expected string, received '' @ getParsedType (js_get kvs ''email'')]) \<and>
   (valid e (JObj kvs) \<longrightarrow> (\<exists>s. js_get kvs ''email'' = JStr s \<and> emailRegex_test e s))"
proof (intro conjI allI impI)
  assume "js_get kvs ''email'' = JUndefined"
  then have "field_errors e (JObj kvs) ''email'' = [''Enter your email first'']"
    by (simp add: field_errors_email email_schema_def z_string_def errors_at_def
        invalid_type_issue_def)
  then show "\<not> valid e (JObj kvs)" "field_errors e (JObj kvs) ''email'' = [''Enter your email first'']"
    using field_errors_invalid[of e "JObj kvs" "''email''"] by simp_all
next
  fix s assume "js_get kvs ''email'' = JStr s \<and> \<not> emailRegex_test e s"
  then have "field_errors e (JObj kvs) ''email'' = [''A valid email address should be provided'']"
    by (simp add: field_errors_email email_schema_def z_string_def errors_at_def)
  then show "\<not> valid e (JObj kvs)"
    "field_errors e (JObj kvs) ''email'' = [''A valid email address should be provided'']"
    using field_errors_invalid[of e "JObj kvs" "''email''"] by simp_all
next
  assume a: "js_get kvs ''email'' \<noteq> JUndefined \<and> \<not> is_string (js_get kvs ''email'')"
  have "errors_at (added (email_schema e [Key ''email''] w)) [Key ''email''] =
          [''Expected string, received '' @ getParsedType w]"
    if "w \<noteq> JUndefined" "\<not> is_string w" for w
    using that
    by (cases w)
       (simp_all add: email_schema_def z_string_def errors_at_def invalid_type_issue_def)
  with a have fe: "field_errors e (JObj kvs) ''email'' =
        [''Expected string, received '' @ getParsedType (js_get kvs ''email'')]"
    by (simp add: field_errors_email)
  then show "\<not> valid e (JObj kvs)"
    using field_errors_invalid[of e "JObj kvs" "''email''"] by simp
  from fe show "field_errors e (JObj kvs) ''email'' =
        [''Expected string, received '' @ getParsedType (js_get kvs ''email'')]" .
next
  assume v: "valid e (JObj kvs)"
  then have "fields_typed kvs" using untyped_invalid by blast
  then obtain s where s: "js_get kvs ''email'' = JStr s"
    by (cases "js_get kvs ''email''") (auto simp: fields_typed_def)
  from v have "field_errors e (JObj kvs) ''email'' = []"
    using field_errors_invalid by blast
  with s have "emailRegex_test e s"
    by (simp add: field_errors_email email_schema_def z_string_def errors_at_def split: if_splits)
  with s show "\<exists>s. js_get kvs ''email'' = JStr s \<and> emailRegex_test e s" by blast
qed

theorem email_required_and_format_witness:
  "js_get (tl (sample_values [] ''12345678'' ''12345678'')) ''email'' = JUndefined \<and>
   field_errors sample_env (JObj (tl (sample_values [] ''12345678'' ''12345678''))) ''email'' =
     [''Enter your email first''] \<and>
   js_get (sample_values ''jane.example.org'' ''12345678'' ''12345678'') ''email'' =
     JStr ''jane.example.org'' \<and>
   \<not> emailRegex_test sample_env ''jane.example.org'' \<and>
   field_errors sample_env (JObj (sample_values ''jane.example.org'' ''12345678'' ''12345678''))
     ''email'' = [''A valid email address should be provided''] \<and>
   js_get number_email ''email'' = JNum 42 \<and>
   \<not> valid sample_env (JObj number_email) \<and>
   field_errors sample_env (JObj number_email) ''email'' =
     [''Expected string, received number''] \<and>
   valid sample_env (JObj (sample_values ''jane@example.org'' ''12345678'' ''12345678'')) \<and>
   emailRegex_test sample_env ''jane@example.org''"
proof -
  have v: "valid sample_env (JObj (sample_values ''jane@example.org'' ''12345678'' ''12345678''))"
    by code_simp
  show ?thesis
    using email_required_and_format
            [of "tl (sample_values [] ''12345678'' ''12345678'')" sample_env]
          email_required_and_format
            [of "sample_values ''jane.example.org'' ''12345678'' ''12345678''" sample_env]
          email_required_and_format [of number_email sample_env]
          email_required_and_format
            [of "sample_values ''jane@example.org'' ''12345678'' ''12345678''" sample_env]
          v
    by (simp add: sample_values_def number_email_def js_get_def sample_env_def has_at_def)
qed

text \<open>
  The claim as first stated gives the format error whenever \<^verbatim>\<open>email\<close> is present but
  not a valid address. In an object whose \<^verbatim>\<open>email\<close> is \<^verbatim>\<open>null\<close> the property is
  present and is no valid address; validation fails, but the only error of the field is
  the type error, not "A valid email address should be provided" (nor
  "Enter your email first").
\<close>

theorem email_required_and_format_counterexample:
  "map_of null_email ''email'' = Some JNull \<and>
   validate sample_env (JObj null_email) =
     Failed [Issue invalid_type [Key ''email''] ''Expected string, received null''] \<and>
   field_errors sample_env (JObj null_email) ''email'' = [''Expected string, received null''] \<and>
   ''A valid email address should be provided''
     \<notin> set (field_errors sample_env (JObj null_email) ''email'')"
  by code_simp

text \<open>
  C5, as amended. Submission is simulated by a delay that precedes the outcome. For
  every set of values that passes validation and is submitted while \<^verbatim>\<open>loading\<close> is
  false, the handler calls \<^verbatim>\<open>sleep(1600)\<close> and suspends, and when it resumes it
  produces one of the two outcomes (the success notification, or the email field error
  with its scroll) right behind the sleep in the log. The same holds on the page: from
  any state it can reach with \<^verbatim>\<open>loading\<close> false, a submission of such values followed
  by the timer extends the log by the sleep and then an outcome. Values submitted while
  \<^verbatim>\<open>loading\<close> is true are stopped by the guard: no sleep, no outcome. In the log of
  every run of the page, each outcome comes right after a sleep of 1600 ms.
\<close>

theorem delay_precedes_outcome:
  assumes "validate e v = Passed x"
  shows "(\<not> loading c \<longrightarrow>
            handleSignup e v c =
              (Called (Awaiting 1600 x),
               c\<lparr>loading := True, effects := effects c @ [Sleep 1600]\<rparr>) \<and>
            (\<exists>out. (out = [NotyfSuccess ''You have successfully signed up!''] \<or>
                    out = [SetFieldError ''email''
                             ''This email is already taken! Tip: use awesome@cssninja.io'',
                           ScrollTo ''#email'']) \<and>
               effects (signup_resume x
                          (c\<lparr>loading := True, effects := effects c @ [Sleep 1600]\<rparr>)) =
                 effects c @ [Sleep 1600] @ out)) \<and>
         (\<not> loading (comp (run e evs)) \<longrightarrow>
            (\<exists>out. (out = [NotyfSuccess ''You have successfully signed up!''] \<or>
                    out = [SetFieldError ''email''
                             ''This email is already taken! Tip: use awesome@cssninja.io'',
                           ScrollTo ''#email'']) \<and>
               effects (comp (run e (evs @ [Submit v, TimerFires]))) =
                 effects (comp (run e evs)) @ [Sleep 1600] @ out)) \<and>
         (loading c \<longrightarrow> handleSignup e v c = (Called Returned, c)) \<and>
         delay_first (effects (comp (run e evs)))"
proof (intro conjI impI)
  assume "\<not> loading c"
  with assms show "handleSignup e v c =
      (Called (Awaiting 1600 x), c\<lparr>loading := True, effects := effects c @ [Sleep 1600]\<rparr>)"
    by (simp add: handleSignup_def handleSubmit_def signup_enter_def)
  show "\<exists>out. (out = [NotyfSuccess ''You have successfully signed up!''] \<or>
              out = [SetFieldError ''email''
                       ''This email is already taken! Tip: use awesome@cssninja.io'',
                     ScrollTo ''#email'']) \<and>
         effects (signup_resume x (c\<lparr>loading := True, effects := effects c @ [Sleep 1600]\<rparr>)) =
           effects c @ [Sleep 1600] @ out"
    by (simp add: signup_resume_def)
next
  let ?s = "run e evs"
  assume idle: "\<not> loading (comp ?s)"
  with at_rest_run[of e evs] have w: "waiting ?s = []"
    by (simp add: at_rest_def)
  from assms idle have sub: "step e ?s (Submit v) =
      \<lparr>comp = (comp ?s)\<lparr>loading := True, effects := effects (comp ?s) @ [Sleep 1600]\<rparr>,
       waiting = [x]\<rparr>"
    by (simp add: handleSignup_def handleSubmit_def signup_enter_def w)
  have "run e (evs @ [Submit v, TimerFires]) = step e (step e ?s (Submit v)) TimerFires"
    by (simp only: run_def foldl_append foldl.simps)
  then have "run e (evs @ [Submit v, TimerFires]) =
      step e \<lparr>comp = (comp ?s)\<lparr>loading := True, effects := effects (comp ?s) @ [Sleep 1600]\<rparr>,
              waiting = [x]\<rparr> TimerFires"
    by (simp only: sub)
  then have "comp (run e (evs @ [Submit v, TimerFires])) =
      signup_resume x ((comp ?s)\<lparr>loading := True, effects := effects (comp ?s) @ [Sleep 1600]\<rparr>)"
    by simp
  then show "\<exists>out. (out = [NotyfSuccess ''You have successfully signed up!''] \<or>
              out = [SetFieldError ''email''
                       ''This email is already taken! Tip: use awesome@cssninja.io'',
                     ScrollTo ''#email'']) \<and>
         effects (comp (run e (evs @ [Submit v, TimerFires]))) =
           effects (comp ?s) @ [Sleep 1600] @ out"
    by (simp add: signup_resume_def)
next
  assume "loading c"
  with assms show "handleSignup e v c = (Called Returned, c)"
    by (simp add: handleSignup_def handleSubmit_def signup_enter_def)
next
  show "delay_first (effects (comp (run e evs)))"
    using at_rest_run[of e evs]
    by (auto simp: at_rest_def rounds_delay_first rounds_pending split: if_splits)
qed

theorem delay_precedes_outcome_witness:
  "validate sample_env taken =
     Passed (JObj (parsed (sample_values ''jane@example.org'' ''12345678'' ''12345678''))) \<and>
   \<not> loading idle \<and>
   handleSignup sample_env taken idle =
     (Called (Awaiting 1600
        (JObj (parsed (sample_values ''jane@example.org'' ''12345678'' ''12345678'')))),
      \<lparr>loading = True, effects = [Sleep 1600]\<rparr>) \<and>
   \<not> loading (comp (run sample_env [])) \<and>
   effects (comp (run sample_env [Submit taken, TimerFires])) =
     [Sleep 1600,
      SetFieldError ''email'' ''This email is already taken! Tip: use awesome@cssninja.io'',
      ScrollTo ''#email''] \<and>
   delay_first (effects (comp (run sample_env [Submit taken, TimerFires])))"
proof -
  have p: "validate sample_env taken =
      Passed (JObj (parsed (sample_values ''jane@example.org'' ''12345678'' ''12345678'')))"
    by code_simp
  have r: "effects (comp (run sample_env [Submit taken, TimerFires])) =
     [Sleep 1600,
      SetFieldError ''email'' ''This email is already taken! Tip: use awesome@cssninja.io'',
      ScrollTo ''#email'']"
    by code_simp
  have i: "\<not> loading (comp (run sample_env []))"
    by (simp add: run_def initial_page_def)
  show ?thesis
    using delay_precedes_outcome [OF p, of idle "[]"]
          delay_precedes_outcome [OF p, of idle "[Submit taken, TimerFires]"]
    by (simp add: p r i idle_def)
qed

text \<open>
  The claim as first stated has the handler await the sleep for every set of values
  that passes validation. Valid values submitted while \<^verbatim>\<open>loading\<close> is true return at
  the guard of line 70: the handler calls no sleep and produces no outcome. On the page,
  a second submission made before the timer of the first one fires leaves a single
  sleep in the log.
\<close>

theorem delay_precedes_outcome_counterexample:
  "validate sample_env taken =
     Passed (JObj (parsed (sample_values ''jane@example.org'' ''12345678'' ''12345678''))) \<and>
   loading busy \<and>
   handleSignup sample_env taken busy = (Called Returned, busy) \<and>
   effects (comp (run sample_env [Submit awesome, Submit taken])) = [Sleep 1600] \<and>
   effects (comp (run sample_env [Submit awesome, Submit taken, TimerFires, TimerFires])) =
     [Sleep 1600, NotyfSuccess ''You have successfully signed up!'']"
  by code_simp

text \<open>
  C6. The initial values do not satisfy the schema, whatever the email pattern and the
  setup time: the password is too short, the terms are not agreed and no interest is
  selected. Submitting the untouched form is rejected with these issues (in the order
  the asynchronous parse adds them: the issue of the \<^verbatim>\<open>agreeTerms\<close> refinement comes
  last), the callback is not called, and the page stays in its initial state: no sleep,
  no notification, no email-taken error.
\<close>

theorem initial_values_rejected:
  "\<not> valid e initialValues \<and>
   handleSignup e initialValues c =
     (Rejected
        ((if emailRegex_test e [] then []
          else [Issue invalid_string [Key ''email''] ''A valid email address should be provided'']) @
         [Issue too_small [Key ''password'']
            ''Your password should contains at least 8 characters'',
          Issue too_small [Key ''interests'']
            ''You must select at least 2 terms of service'',
          Issue custom [Key ''agreeTerms''] ''You must agree our terms of service'']), c) \<and>
   step e initial_page (Submit initialValues) = initial_page"
proof -
  have f: "validate e initialValues =
     Failed
        ((if emailRegex_test e [] then []
          else [Issue invalid_string [Key ''email''] ''A valid email address should be provided'']) @
         [Issue too_small [Key ''password'']
            ''Your password should contains at least 8 characters'',
          Issue too_small [Key ''interests'']
            ''You must select at least 2 terms of service'',
          Issue custom [Key ''agreeTerms''] ''You must agree our terms of service''])"
    by (simp add: validate_def safeParseAsync_def validationSchema_def z_refine_def z_object_def
        form_shape_def initialValues_def js_get_def email_schema_def password_schema_def
        passwordCheck_schema_def birthdate_schema_def agreeTerms_schema_def
        interests_schema_def emailOptin_schema_def z_string_def z_nullable_def z_boolean_def
        z_array_min_max_def passwords_match_def)
  then show ?thesis
    by (simp add: valid_def handleSignup_def handleSubmit_def initial_page_def)
qed

theorem initial_values_rejected_witness:
  "\<not> valid sample_env initialValues \<and>
   handleSignup sample_env initialValues idle =
     (Rejected
        [Issue invalid_string [Key ''email''] ''A valid email address should be provided'',
         Issue too_small [Key ''password'']
            ''Your password should contains at least 8 characters'',
         Issue too_small [Key ''interests'']
            ''You must select at least 2 terms of service'',
         Issue custom [Key ''agreeTerms''] ''You must agree our terms of service''], idle) \<and>
   run sample_env [Submit initialValues] = initial_page"
  using initial_values_rejected[of sample_env idle]
  by (simp add: sample_env_def has_at_def run_def)

text \<open>
  C7, as amended. For every validated submission that the guard lets through
  (\<^verbatim>\<open>loading\<close> is false when the callback is called), the callback suspends on the
  sleep, and when it resumes the outcome is decided by the email alone: the success
  notification if the email is \<^verbatim>\<open>awesome@cssninja.io\<close>, otherwise the field error
  "This email is already taken! Tip: use awesome@cssninja.io" on \<^verbatim>\<open>email\<close> followed
  by the scroll to \<^verbatim>\<open>#email\<close> and no notification. In both cases \<^verbatim>\<open>loading\<close> is
  false afterwards.
\<close>

theorem outcome_by_email:
  assumes "validate e v = Passed x" and "\<not> loading c"
  shows "handleSignup e v c =
           (Called (Awaiting 1600 x), c\<lparr>loading := True, effects := effects c @ [Sleep 1600]\<rparr>) \<and>
         signup_resume x (c\<lparr>loading := True, effects := effects c @ [Sleep 1600]\<rparr>) =
           c\<lparr>loading := False,
             effects := effects c @ Sleep 1600 #
               (if field v ''email'' = JStr ''awesome@cssninja.io''
                then [NotyfSuccess ''You have successfully signed up!'']
                else [SetFieldError ''email''
                        ''This email is already taken! Tip: use awesome@cssninja.io'',
                      ScrollTo ''#email''])\<rparr>"
  using assms validated_email[OF assms(1), of "''awesome@cssninja.io''"]
  by (simp add: handleSignup_def handleSubmit_def signup_enter_def signup_resume_def)

theorem outcome_by_email_witness:
  "validate sample_env awesome = Passed (JObj (parsed (sample_values ''awesome@cssninja.io'' ''12345678'' ''12345678''))) \<and>
   \<not> loading idle \<and>
   signup_resume (JObj (parsed (sample_values ''awesome@cssninja.io'' ''12345678'' ''12345678'')))
     \<lparr>loading = True, effects = [Sleep 1600]\<rparr> =
     \<lparr>loading = False,
      effects = [Sleep 1600, NotyfSuccess ''You have successfully signed up!'']\<rparr> \<and>
   validate sample_env taken = Passed (JObj (parsed (sample_values ''jane@example.org'' ''12345678'' ''12345678''))) \<and>
   signup_resume (JObj (parsed (sample_values ''jane@example.org'' ''12345678'' ''12345678'')))
     \<lparr>loading = True, effects = [Sleep 1600]\<rparr> =
     \<lparr>loading = False,
      effects = [Sleep 1600,
                 SetFieldError ''email''
                   ''This email is already taken! Tip: use awesome@cssninja.io'',
                 ScrollTo ''#email'']\<rparr>"
proof -
  have a: "validate sample_env awesome = Passed (JObj (parsed (sample_values ''awesome@cssninja.io'' ''12345678'' ''12345678'')))"
    by code_simp
  have t: "validate sample_env taken = Passed (JObj (parsed (sample_values ''jane@example.org'' ''12345678'' ''12345678'')))"
    by code_simp
  have i: "\<not> loading idle" by (simp add: idle_def)
  have fa: "field awesome ''email'' = JStr ''awesome@cssninja.io''"
    by (simp add: awesome_def sample_values_def js_get_def)
  have ft: "field taken ''email'' \<noteq> JStr ''awesome@cssninja.io''"
    by (simp add: taken_def sample_values_def js_get_def)
  show ?thesis
    using outcome_by_email[OF a i] outcome_by_email[OF t i]
    by (simp add: a t fa ft idle_def)
qed

text \<open>
  The claim as first stated covers every validated submission. A submission with valid
  values and the email \<^verbatim>\<open>awesome@cssninja.io\<close> made while \<^verbatim>\<open>loading\<close> is true is
  stopped by the guard of line 70: no notification is shown for it. Submitting twice
  before the timer fires shows one notification, not two.
\<close>

theorem outcome_by_email_counterexample:
  "validate sample_env awesome = Passed (JObj (parsed (sample_values ''awesome@cssninja.io'' ''12345678'' ''12345678''))) \<and>
   field awesome ''email'' = JStr ''awesome@cssninja.io'' \<and>
   handleSignup sample_env awesome busy = (Called Returned, busy) \<and>
   effects (comp (run sample_env [Submit awesome, Submit awesome, TimerFires, TimerFires])) =
     [Sleep 1600, NotyfSuccess ''You have successfully signed up!'']"
  by code_simp

text \<open>
  C8. The \<^verbatim>\<open>loading\<close> flag is a reentrancy guard that is always released. Called
  while \<^verbatim>\<open>loading\<close> is true, the callback returns at once and changes nothing.
  Called while it is false, the callback sets it and suspends on the sleep; resuming
  clears it on both paths. In every state the page can reach, \<^verbatim>\<open>loading\<close> is true
  exactly when a call is waiting for its timer, and at most one call is.
\<close>

theorem loading_guard_released:
  "(loading c \<longrightarrow> signup_enter x c = (Returned, c)) \<and>
   (\<not> loading c \<longrightarrow>
      signup_enter x c =
        (Awaiting 1600 x, c\<lparr>loading := True, effects := effects c @ [Sleep 1600]\<rparr>)) \<and>
   \<not> loading (signup_resume x c) \<and>
   (loading (comp (run e evs)) \<longleftrightarrow> waiting (run e evs) \<noteq> []) \<and>
   length (waiting (run e evs)) \<le> 1"
  using at_rest_run[of e evs]
  by (auto simp: signup_enter_def signup_resume_def at_rest_def split: if_splits)

theorem loading_guard_released_witness:
  "loading busy \<and> signup_enter awesome busy = (Returned, busy) \<and>
   \<not> loading idle \<and>
   signup_enter awesome idle = (Awaiting 1600 awesome, \<lparr>loading = True, effects = [Sleep 1600]\<rparr>) \<and>
   \<not> loading (signup_resume awesome busy) \<and>
   \<not> loading (comp (run sample_env [Submit awesome, Submit taken, TimerFires])) \<and>
   waiting (run sample_env [Submit awesome, Submit taken, TimerFires]) = []"
proof -
  have r: "waiting (run sample_env [Submit awesome, Submit taken, TimerFires]) = []"
    by code_simp
  show ?thesis
    using loading_guard_released
            [of busy awesome sample_env "[Submit awesome, Submit taken, TimerFires]"]
          loading_guard_released
            [of idle awesome sample_env "[Submit awesome, Submit taken, TimerFires]"]
    by (simp add: r busy_def idle_def)
qed

text \<open>
  C9. The number of selected interests is bounded on both sides. For every input object
  whose \<^verbatim>\<open>interests\<close> is an array: with fewer than 2 elements validation fails with
  "You must select at least 2 terms of service", with more than 3 it fails with
  "You can select up to 3 terms of service", and the field has no error of its own
  exactly when the length is 2 or 3.
\<close>

theorem interests_between_2_and_3:
  assumes "js_get kvs ''interests'' = JArr xs"
  shows "(length xs < 2 \<longrightarrow>
            \<not> valid e (JObj kvs) \<and>
            field_errors e (JObj kvs) ''interests'' =
              [''You must select at least 2 terms of service'']) \<and>
         (length xs > 3 \<longrightarrow>
            \<not> valid e (JObj kvs) \<and>
            field_errors e (JObj kvs) ''interests'' =
              [''You can select up to 3 terms of service'']) \<and>
         (field_errors e (JObj kvs) ''interests'' = [] \<longleftrightarrow> 2 \<le> length xs \<and> length xs \<le> 3)"
proof -
  let ?elems = "map (\<lambda>(i, x). z_string e None [] ([Key ''interests''] @ [Idx i]) x) (enumerate 0 xs)"
  have below: "path i \<noteq> [Key ''interests'']"
    if "i \<in> set (added (z_string e None [] ([Key ''interests''] @ [Idx m]) x))" for i m x
  proof -
    from that rooted_z_string[of e None "[]"]
    have "take (length ([Key ''interests''] @ [Idx m])) (path i) = [Key ''interests''] @ [Idx m]"
      unfolding rooted_def by blast
    then show ?thesis by auto
  qed
  have "path i \<noteq> [Key ''interests'']" if "i \<in> set (concat (map sync_issues ?elems))" for i
    using that below by (fastforce simp: set_added)
  moreover
  have "path i \<noteq> [Key ''interests'']" if "i \<in> set (concat (map late_issues ?elems))" for i
    using that below by (fastforce simp: set_added)
  ultimately have sub: "errors_at (concat (map sync_issues ?elems)) [Key ''interests''] = []"
    "errors_at (concat (map late_issues ?elems)) [Key ''interests''] = []"
    unfolding errors_at_def filter_empty_conv map_is_Nil_conv by blast+
  have fe: "field_errors e (JObj kvs) ''interests'' =
      (if length xs < 2 then [''You must select at least 2 terms of service''] else []) @
      (if length xs > 3 then [''You can select up to 3 terms of service''] else [])"
    using assms sub
    by (simp add: field_errors_interests interests_schema_def z_array_min_max_def Let_def)
       (simp add: errors_at_def)
  show ?thesis
    using field_errors_invalid[of e "JObj kvs" "''interests''"] by (auto simp: fe)
qed

theorem interests_between_2_and_3_witness:
  "field_errors sample_env (JObj (with_interests [JStr ''Food''])) ''interests'' =
     [''You must select at least 2 terms of service''] \<and>
   \<not> valid sample_env (JObj (with_interests [JStr ''Food''])) \<and>
   field_errors sample_env
     (JObj (with_interests [JStr ''Food'', JStr ''Toys & Hobbies'', JStr ''Lights & Lighting'',
                            JStr ''Home & Garden''])) ''interests'' =
     [''You can select up to 3 terms of service''] \<and>
   field_errors sample_env
     (JObj (with_interests [JStr ''Food'', JStr ''Toys & Hobbies'', JStr ''Lights & Lighting'']))
     ''interests'' = []"
  using interests_between_2_and_3
          [of "with_interests [JStr ''Food'']" "[JStr ''Food'']" sample_env]
        interests_between_2_and_3
          [of "with_interests [JStr ''Food'', JStr ''Toys & Hobbies'', JStr ''Lights & Lighting'',
                               JStr ''Home & Garden'']"
              "[JStr ''Food'', JStr ''Toys & Hobbies'', JStr ''Lights & Lighting'',
                JStr ''Home & Garden'']" sample_env]
        interests_between_2_and_3
          [of "with_interests [JStr ''Food'', JStr ''Toys & Hobbies'', JStr ''Lights & Lighting'']"
              "[JStr ''Food'', JStr ''Toys & Hobbies'', JStr ''Lights & Lighting'']" sample_env]
  by (simp add: with_interests_def js_get_def)

end
